theory Spec2Isabelle
  imports Main "HOL-Library.Word"
begin

section \<open>Data model\<close>

text \<open>
  The loader of \<^verbatim>\<open>thunder/rdds/fileio/imagesloader.py\<close> turns records
  \<open>(idx, buf)\<close>, one per source file, into keyed arrays. A buffer is a list of bytes.
  An array is its shape together with its elements listed in column-major (Fortran) order,
  the order in which \<^verbatim>\<open>reshape(dims, order='F')\<close> reads the buffer.
\<close>

type_synonym byte = "8 word"

type_synonym buffer = "byte list"

text \<open>One element of a binary stack: the \<open>itemsize\<close> raw bytes of the buffer it occupies.\<close>

type_synonym elem = "byte list"

record 'a ndarray =
  shape :: "nat list"
  data :: "'a list"

datatype dtype = Int8 | UInt8 | Int16 | UInt16 | Int32 | UInt32 | Int64 | UInt64 | Float32 | Float64

fun itemsize :: "dtype \<Rightarrow> nat" where
  "itemsize Int8 = 1"
| "itemsize UInt8 = 1"
| "itemsize Int16 = 2"
| "itemsize UInt16 = 2"
| "itemsize Int32 = 4"
| "itemsize UInt32 = 4"
| "itemsize Float32 = 4"
| "itemsize Int64 = 8"
| "itemsize UInt64 = 8"
| "itemsize Float64 = 8"

text \<open>
  Every exception the loader can raise, as a value.
  \<^item> \<open>DimsNotSpecified\<close>: \<^verbatim>\<open>ValueError("Image dimensions must be specified ...")\<close>;
  \<^item> \<open>NplanesNotPositive n\<close>: \<^verbatim>\<open>ValueError("nplanes must be positive if passed, got %d" % n)\<close>;
  \<^item> \<open>PILImportError\<close>: the \<^verbatim>\<open>ImportError\<close> of \<^verbatim>\<open>fromTif\<close>;
  \<^item> \<open>BufferTooSmall\<close>: numpy's \<^verbatim>\<open>ValueError("buffer is smaller than requested size")\<close>;
  \<^item> \<open>StackShapeMismatch\<close>: numpy's \<^verbatim>\<open>ValueError\<close> of \<^verbatim>\<open>dstack\<close> on arrays whose shapes disagree;
  \<^item> \<open>NothingToStack\<close>: numpy's \<^verbatim>\<open>ValueError\<close> of \<^verbatim>\<open>dstack\<close> on an empty sequence;
  \<^item> \<open>ZeroDivisionError\<close>, \<open>IndexError\<close>, \<open>TypeError\<close>: Python's own;
  \<^item> \<open>CodecError\<close>: whatever the image codec raises on a buffer it cannot read.
\<close>

datatype error =
    DimsNotSpecified
  | NplanesNotPositive int
  | PILImportError
  | BufferTooSmall
  | StackShapeMismatch
  | NothingToStack
  | ZeroDivisionError
  | IndexError
  | TypeError
  | CodecError

section \<open>The numpy operations the loader calls\<close>

text \<open>
  \<^verbatim>\<open>frombuffer(buf, dtype=dtype, count=n)\<close> with \<open>n \<ge> 0\<close> reads the first \<open>n\<close> items of
  the buffer. It raises when the buffer holds fewer than \<open>n * itemsize\<close> bytes, and reads
  nothing past them when it holds more.
\<close>

definition frombuffer :: "buffer \<Rightarrow> dtype \<Rightarrow> nat \<Rightarrow> error + elem list" where
  "frombuffer buf dt count =
     (if length buf < count * itemsize dt then Inl BufferTooSmall
      else Inr (map (\<lambda>i. take (itemsize dt) (drop (i * itemsize dt) buf)) [0..<count]))"

text \<open>\<^verbatim>\<open>a.reshape(dims, order='F')\<close> of a flat array of \<open>prod dims\<close> items.\<close>

definition reshape_F :: "'a list \<Rightarrow> nat list \<Rightarrow> 'a ndarray" where
  "reshape_F items dims = \<lparr>shape = dims, data = items\<rparr>"

text \<open>
  \<^verbatim>\<open>ary[[slice(None)] * (ary.ndim - 1) + [slice(lo, hi)]]\<close>: the planes \<open>lo \<le> k < hi\<close> of
  the last axis. Python clips both bounds to the axis length. In column-major order a
  plane is a contiguous run of \<open>prod (shape[:-1])\<close> items.
\<close>

definition slice_last :: "'a ndarray \<Rightarrow> nat \<Rightarrow> nat \<Rightarrow> 'a ndarray" where
  "slice_last ary lo hi =
     (let lastdim = last (shape ary);
          plane = prod_list (butlast (shape ary));
          start = min lo lastdim;
          stop = min hi lastdim
      in \<lparr>shape = butlast (shape ary) @ [stop - start],
          data = take ((stop - start) * plane) (drop (start * plane) (data ary))\<rparr>)"

section \<open>fromStack: flat binary stacks\<close>

text \<open>
  The \<^verbatim>\<open>while curPlane < ary.shape[-1]\<close> loop of \<^verbatim>\<open>toArray\<close>. The generator's yields
  are collected in \<open>out\<close>; the loop's variables \<open>curPlane\<close>, \<open>lastPlane\<close> and
  \<open>timepoint\<close> are passed along, and the last two are returned for the flush after it.
\<close>

function toArray_walk ::
  "'a ndarray \<Rightarrow> nat \<Rightarrow> nat \<Rightarrow> nat \<Rightarrow> (nat \<times> 'a ndarray) list \<Rightarrow> nat \<Rightarrow> nat \<Rightarrow> nat
     \<Rightarrow> (nat \<times> 'a ndarray) list \<times> nat \<times> nat" where
  "toArray_walk ary nplanes idx npoints out curPlane lastPlane timepoint =
     (if curPlane < last (shape ary) then
        (if curPlane mod nplanes = 0 then
           toArray_walk ary nplanes idx npoints
             (out @ [(idx * npoints + timepoint, slice_last ary lastPlane curPlane)])
             (curPlane + 1) curPlane (timepoint + 1)
         else toArray_walk ary nplanes idx npoints out (curPlane + 1) lastPlane timepoint)
      else (out, lastPlane, timepoint))"
  by pat_completeness auto
termination
  by (relation "measure (\<lambda>(ary, nplanes, idx, npoints, out, curPlane, lastPlane, timepoint).
        last (shape ary) - curPlane)") auto

text \<open>\<^verbatim>\<open>npoints = dims[-1] / nplanes\<close>, plus one when \<^verbatim>\<open>dims[-1] % nplanes\<close> is nonzero.\<close>

definition npoints_of :: "nat \<Rightarrow> nat \<Rightarrow> nat" where
  "npoints_of lastdim nplanes =
     (if lastdim mod nplanes \<noteq> 0 then lastdim div nplanes + 1 else lastdim div nplanes)"

text \<open>
  The \<^verbatim>\<open>yield\<close> after the loop (\<^verbatim>\<open># yield remaining planes\<close>), from
  \<open>lastPlane\<close> to the end of the last axis.
\<close>

definition toArray_flush :: "'a ndarray \<Rightarrow> nat \<Rightarrow> nat \<Rightarrow> nat \<Rightarrow> nat \<Rightarrow> nat \<times> 'a ndarray" where
  "toArray_flush ary idx npoints lastPlane timepoint =
     (idx * npoints + timepoint, slice_last ary lastPlane (last (shape ary)))"

text \<open>
  \<^verbatim>\<open>toArray\<close>, the function \<^verbatim>\<open>fromStack\<close> maps over the records. \<^verbatim>\<open>fromStack\<close> only
  builds it after its checks, so \<open>nplanes\<close> is positive when given and \<open>dims\<close> is
  not empty; what Python would raise outside that range is written out all the same.
\<close>

definition toArray ::
  "nat list \<Rightarrow> dtype \<Rightarrow> nat option \<Rightarrow> nat \<times> buffer \<Rightarrow> error + (nat \<times> elem ndarray) list" where
  "toArray dims dt nplanes idxAndBuf =
     (case idxAndBuf of (idx, buf) \<Rightarrow>
        (case frombuffer buf dt (prod_list dims) of
           Inl e \<Rightarrow> Inl e
         | Inr items \<Rightarrow>
             (let ary = reshape_F items dims in
                (case nplanes of
                   None \<Rightarrow> Inr [(idx, ary)]
                 | Some n \<Rightarrow>
                     if dims = [] then Inl IndexError
                     else if n = 0 then Inl ZeroDivisionError
                     else
                       (let npoints = npoints_of (last dims) n in
                          (case toArray_walk ary n idx npoints [] 1 0 0 of
                             (out, lastPlane, timepoint) \<Rightarrow>
                               Inr (out @ [toArray_flush ary idx npoints lastPlane timepoint])))))))"

section \<open>The record source and the Images container\<close>

text \<open>
  Modelled from the spec: the record source (\<^verbatim>\<open>thunder.rdds.fileio.readers\<close>, not part of
  this file). Its \<^verbatim>\<open>read\<close> delivers each file's raw bytes tagged with its sorted
  position, 0-based and contiguous, and \<^verbatim>\<open>lastNRecs\<close> is the number of records read.
  \<open>files\<close> are the contents of the files the path, extension and index range select,
  in sorted order.
\<close>

record reader =
  records :: "(nat \<times> buffer) list"
  lastNRecs :: nat

definition reader_read :: "buffer list \<Rightarrow> reader" where
  "reader_read files = \<lparr>records = zip [0..<length files] files, lastNRecs = length files\<rparr>"

text \<open>
  Modelled from the spec: the array collection (\<^verbatim>\<open>thunder.rdds.images.Images\<close>, not part
  of this file), which stores the frame sequence with the metadata it is constructed
  from: frame count, dimensions and element type, each \<open>None\<close> when not passed.
  The frame sequence is kept per record (one partition per file): what decoding that
  record yields, or the error it raises when the sequence is consumed.
\<close>

record 'a images =
  rdd :: "(error + (nat \<times> 'a ndarray) list) list"
  nimages :: "nat option"
  images_dims :: "nat list option"
  images_dtype :: "dtype option"

text \<open>\<^verbatim>\<open>rdd.flatMap(f)\<close> and \<^verbatim>\<open>rdd.mapValues(f)\<close>, record by record.\<close>

definition flatMap :: "('r \<Rightarrow> error + 'b list) \<Rightarrow> 'r list \<Rightarrow> (error + 'b list) list" where
  "flatMap f rs = map f rs"

definition mapValues :: "('v \<Rightarrow> error + 'w) \<Rightarrow> ('k \<times> 'v) list \<Rightarrow> (error + ('k \<times> 'w) list) list" where
  "mapValues f rs =
     map (\<lambda>kv. case kv of (k, v) \<Rightarrow> (case f v of Inl e \<Rightarrow> Inl e | Inr w \<Rightarrow> Inr [(k, w)])) rs"

text \<open>
  Consuming the whole sequence: the frames of all records in record order, or the first
  error (a failure on one record fails the job).
\<close>

fun collect :: "(error + 'b list) list \<Rightarrow> error + 'b list" where
  "collect [] = Inr []"
| "collect (r # rs) =
     (case r of
        Inl e \<Rightarrow> Inl e
      | Inr xs \<Rightarrow> (case collect rs of Inl e \<Rightarrow> Inl e | Inr ys \<Rightarrow> Inr (xs @ ys)))"

text \<open>
  \<^verbatim>\<open>fromStack(dataPath, dims, dtype, ..., nplanes)\<close>. \<open>dims\<close> is \<open>None\<close> when the caller
  passes \<^verbatim>\<open>None\<close>; \<^verbatim>\<open>not dims\<close> holds for \<^verbatim>\<open>None\<close> and for the empty tuple.
  \<open>nplanes\<close> is any Python integer or \<^verbatim>\<open>None\<close>; past the check it is positive.
\<close>

definition fromStack ::
  "buffer list \<Rightarrow> nat list option \<Rightarrow> dtype \<Rightarrow> int option \<Rightarrow> error + elem images" where
  "fromStack files dims dt nplanes =
     (case dims of
        None \<Rightarrow> Inl DimsNotSpecified
      | Some ds \<Rightarrow>
          if ds = [] then Inl DimsNotSpecified
          else
            (case nplanes of
               None \<Rightarrow>
                 (let reader = reader_read files
                  in Inr \<lparr>rdd = flatMap (toArray ds dt None) (records reader),
                          nimages = Some (lastNRecs reader),
                          images_dims = Some ds,
                          images_dtype = Some dt\<rparr>)
             | Some n \<Rightarrow>
                 if n \<le> 0 then Inl (NplanesNotPositive n)
                 else
                   (let reader = reader_read files
                    in Inr \<lparr>rdd = flatMap (toArray ds dt (Some (nat n))) (records reader),
                            nimages = None,
                            images_dims = Some (butlast ds @ [nat n]),
                            images_dtype = Some dt\<rparr>)))"

section \<open>fromTif: multipage tif files\<close>

text \<open>
  \<^verbatim>\<open>numpy.dstack\<close>: every array is first viewed with at least three axes
  (\<^verbatim>\<open>atleast_3d\<close>: shape \<open>()\<close> becomes \<open>(1,1,1)\<close>, \<open>(N)\<close> becomes \<open>(1,N,1)\<close>, \<open>(M,N)\<close> becomes
  \<open>(M,N,1)\<close>), which leaves the column-major order of the items as it is; then the arrays
  are concatenated along the third axis, which needs all other axes to agree.
\<close>

definition atleast_3d :: "'a ndarray \<Rightarrow> 'a ndarray" where
  "atleast_3d a =
     (case shape a of
        [] \<Rightarrow> a\<lparr>shape := [1, 1, 1]\<rparr>
      | [n] \<Rightarrow> a\<lparr>shape := [1, n, 1]\<rparr>
      | [m, n] \<Rightarrow> a\<lparr>shape := [m, n, 1]\<rparr>
      | _ \<Rightarrow> a)"

definition stackable :: "nat list \<Rightarrow> 'a ndarray \<Rightarrow> bool" where
  "stackable s0 a =
     (length (shape a) = length s0 \<and> take 2 (shape a) = take 2 s0 \<and> drop 3 (shape a) = drop 3 s0)"

definition dstack :: "'a ndarray list \<Rightarrow> error + 'a ndarray" where
  "dstack arys =
     (case map atleast_3d arys of
        [] \<Rightarrow> Inl NothingToStack
      | a0 # rest \<Rightarrow>
          if list_all (stackable (shape a0)) rest then
            Inr \<lparr>shape = take 2 (shape a0) @ [sum_list (map (\<lambda>a. shape a ! 2) (a0 # rest))]
                          @ drop 3 (shape a0),
                 data = concat (map (\<lambda>j. concat (map (\<lambda>a. take (prod_list (take 3 (shape a)))
                                                           (drop (j * prod_list (take 3 (shape a))) (data a)))
                                                   (a0 # rest)))
                                    [0..<prod_list (drop 3 (shape a0))])\<rparr>
          else Inl StackShapeMismatch)"

text \<open>\<^verbatim>\<open>retAry = dstack(imgArys) if len(imgArys) > 1 else imgArys[0]\<close>\<close>

definition retAry :: "'a ndarray list \<Rightarrow> error + 'a ndarray" where
  "retAry imgArys =
     (if length imgArys > 1 then dstack imgArys
      else (case imgArys of [] \<Rightarrow> Inl IndexError | a # _ \<Rightarrow> Inr a))"

text \<open>
  The \<^verbatim>\<open>while True\<close> loop of \<^verbatim>\<open>multitifReader\<close>. \<open>pages\<close> are the arrays
  \<^verbatim>\<open>conversionFcn(multipage)\<close> gives after each \<^verbatim>\<open>multipage.seek(pageIdx)\<close>; seeking past
  the last one raises \<^verbatim>\<open>EOFError\<close>, which ends the loop. \<open>npagesLeft\<close> is a Python
  integer, or \<^verbatim>\<open>None\<close> after a reset with \<^verbatim>\<open>nplanes = None\<close> (where the next
  \<^verbatim>\<open>npagesLeft -= 1\<close> would raise). The loop returns \<open>imgArys\<close> and \<open>values\<close>.
\<close>

function multitif_walk ::
  "nat option \<Rightarrow> 'a ndarray list \<Rightarrow> nat \<Rightarrow> 'a ndarray list \<Rightarrow> int option \<Rightarrow> 'a ndarray list
     \<Rightarrow> error + ('a ndarray list \<times> 'a ndarray list)" where
  "multitif_walk nplanes pages pageIdx imgArys npagesLeft values =
     (if pageIdx < length pages then
        (case npagesLeft of
           None \<Rightarrow> Inl TypeError
         | Some left \<Rightarrow>
             if left - 1 = 0 then
               (case retAry (imgArys @ [pages ! pageIdx]) of
                  Inl e \<Rightarrow> Inl e
                | Inr r \<Rightarrow>
                    multitif_walk nplanes pages (pageIdx + 1) [] (map_option int nplanes)
                      (values @ [r]))
             else
               multitif_walk nplanes pages (pageIdx + 1) (imgArys @ [pages ! pageIdx])
                 (Some (left - 1)) values)
      else Inr (imgArys, values))"
  by pat_completeness auto
termination
  by (relation "measure (\<lambda>(nplanes, pages, pageIdx, imgArys, npagesLeft, values).
        length pages - pageIdx)") auto

text \<open>The \<^verbatim>\<open>if imgArys:\<close> block after the loop.\<close>

definition multitif_flush :: "'a ndarray list \<Rightarrow> 'a ndarray list \<Rightarrow> error + 'a ndarray list" where
  "multitif_flush imgArys values =
     (if imgArys \<noteq> [] then
        (case retAry imgArys of Inl e \<Rightarrow> Inl e | Inr r \<Rightarrow> Inr (values @ [r]))
      else Inr values)"

text \<open>
  \<^verbatim>\<open>multitifReader\<close> on an opened image: \<^verbatim>\<open>npagesLeft = -1 if nplanes is None else nplanes\<close>,
  the loop, the flush, then \<^verbatim>\<open>keys = [idx*nvals + timepoint for timepoint in xrange(nvals)]\<close>
  and \<^verbatim>\<open>zip(keys, values)\<close>.
\<close>

definition multitif_frames ::
  "nat option \<Rightarrow> nat \<Rightarrow> 'a ndarray list \<Rightarrow> error + (nat \<times> 'a ndarray) list" where
  "multitif_frames nplanes idx pages =
     (case multitif_walk nplanes pages 0 []
             (case nplanes of None \<Rightarrow> Some (- 1) | Some n \<Rightarrow> Some (int n)) [] of
        Inl e \<Rightarrow> Inl e
      | Inr (imgArys, values) \<Rightarrow>
          (case multitif_flush imgArys values of
             Inl e \<Rightarrow> Inl e
           | Inr values' \<Rightarrow>
               (let nvals = length values';
                    keys = map (\<lambda>timepoint. idx * nvals + timepoint) [0..<nvals]
                in Inr (zip keys values'))))"

text \<open>
  \<^verbatim>\<open>multitifReader(idxAndBuf)\<close>. \<open>Image_open\<close> stands for PIL reading the buffer: the
  pages of the image, or the error PIL raises on a buffer it cannot read.
\<close>

definition multitifReader ::
  "(buffer \<Rightarrow> error + 'a ndarray list) \<Rightarrow> nat option \<Rightarrow> nat \<times> buffer
     \<Rightarrow> error + (nat \<times> 'a ndarray) list" where
  "multitifReader Image_open nplanes idxAndBuf =
     (case idxAndBuf of (idx, buf) \<Rightarrow>
        (case Image_open buf of
           Inl e \<Rightarrow> Inl e
         | Inr pages \<Rightarrow> multitif_frames nplanes idx pages))"

text \<open>
  \<^verbatim>\<open>fromTif(dataPath, ..., nplanes)\<close>. \<open>pil\<close> says whether \<^verbatim>\<open>from PIL import Image\<close>
  succeeds.
\<close>

definition fromTif ::
  "bool \<Rightarrow> (buffer \<Rightarrow> error + 'a ndarray list) \<Rightarrow> buffer list \<Rightarrow> int option \<Rightarrow> error + 'a images" where
  "fromTif pil Image_open files nplanes =
     (if \<not> pil then Inl PILImportError
      else
        (case nplanes of
           None \<Rightarrow>
             (let reader = reader_read files
              in Inr \<lparr>rdd = flatMap (multitifReader Image_open None) (records reader),
                      nimages = Some (lastNRecs reader),
                      images_dims = None,
                      images_dtype = None\<rparr>)
         | Some n \<Rightarrow>
             if n \<le> 0 then Inl (NplanesNotPositive n)
             else
               (let reader = reader_read files
                in Inr \<lparr>rdd = flatMap (multitifReader Image_open (Some (nat n))) (records reader),
                        nimages = None,
                        images_dims = None,
                        images_dtype = None\<rparr>)))"

section \<open>fromPng: single-frame files\<close>

text \<open>
  \<^verbatim>\<open>fromPng(dataPath, ...)\<close>. \<open>imread\<close> stands for matplotlib reading one png buffer:
  the array, or the error it raises.
\<close>

definition fromPng :: "(buffer \<Rightarrow> error + 'a ndarray) \<Rightarrow> buffer list \<Rightarrow> 'a images" where
  "fromPng imread files =
     (let reader = reader_read files
      in \<lparr>rdd = mapValues imread (records reader),
          nimages = Some (lastNRecs reader),
          images_dims = None,
          images_dtype = None\<rparr>)"

text \<open>The configuration errors: the two \<^verbatim>\<open>ValueError\<close>s raised on the arguments.\<close>

fun is_ConfigurationError :: "error \<Rightarrow> bool" where
  "is_ConfigurationError DimsNotSpecified = True"
| "is_ConfigurationError (NplanesNotPositive n) = True"
| "is_ConfigurationError e = False"

section \<open>The plane walk of toArray in closed form\<close>

declare toArray_walk.simps [simp del]

declare multitif_walk.simps [simp del]

lemma walk_close_arith:
  fixes n :: nat
  assumes "0 < n" "n * t < c" "c \<le> n * t + n" "c mod n = 0"
  shows "c = n * (t + 1)"
proof -
  from assms(4) obtain q where q: "c = n * q" by (auto simp: mod_eq_0_iff_dvd)
  with assms(1,2) have "t < q" by simp
  moreover from q assms(1,3) have "n * q \<le> n * (t + 1)" by simp
  with assms(1) have "q \<le> t + 1" using mult_le_cancel1 [of n q "t + 1"] by blast
  ultimately have "q = t + 1" by simp
  with q show ?thesis by simp
qed

lemma walk_end_arith:
  fixes n :: nat
  assumes "0 < n" "n * t < c" "c \<le> n * t + n"
  shows "(c - 1) div n = t"
proof -
  have "n * t \<le> c - 1" using assms by simp
  moreover have "c - 1 < n * t + n" using assms by simp
  ultimately show ?thesis
    using assms(1) by (metis add.commute div_nat_eqI mult_Suc_right)
qed

lemma toArray_walk_closed:
  assumes "0 < n" "lastPlane = n * timepoint" "lastPlane < curPlane"
    "curPlane \<le> lastPlane + n" "curPlane \<le> last (shape ary)"
  shows "toArray_walk ary n idx np out curPlane lastPlane timepoint =
     (out @ map (\<lambda>k. (idx * np + k, slice_last ary (n * k) (n * (k + 1))))
               [timepoint ..< (last (shape ary) - 1) div n],
      n * ((last (shape ary) - 1) div n), (last (shape ary) - 1) div n)"
  using assms
proof (induction ary n idx np out curPlane lastPlane timepoint rule: toArray_walk.induct)
  case (1 ary n idx np out curPlane lastPlane timepoint)
  let ?T = "last (shape ary)"
  let ?K = "(?T - 1) div n"
  show ?case
  proof (cases "curPlane < ?T")
    case False
    with "1.prems" have eq: "curPlane = ?T" by simp
    have K: "?K = timepoint"
      using walk_end_arith [of n timepoint curPlane] "1.prems" eq by simp
    show ?thesis
      using False K "1.prems"(2) by (subst toArray_walk.simps) simp
  next
    case True
    show ?thesis
    proof (cases "curPlane mod n = 0")
      case z: True
      have c: "curPlane = n * (timepoint + 1)"
        using walk_close_arith [of n timepoint curPlane] "1.prems" z by simp
      have le: "timepoint + 1 \<le> ?K"
      proof -
        have "n * (timepoint + 1) \<le> ?T - 1" using c True by simp
        then have "(n * (timepoint + 1)) div n \<le> ?K" by (rule div_le_mono)
        with "1.prems"(1) show ?thesis by simp
      qed
      have IH: "toArray_walk ary n idx np
          (out @ [(idx * np + timepoint, slice_last ary lastPlane curPlane)])
          (curPlane + 1) curPlane (timepoint + 1) =
        ((out @ [(idx * np + timepoint, slice_last ary lastPlane curPlane)]) @
           map (\<lambda>k. (idx * np + k, slice_last ary (n * k) (n * (k + 1)))) [timepoint + 1 ..< ?K],
         n * ?K, ?K)"
        using "1.IH"(1) [OF True z] "1.prems"(1) c True by simp
      have up: "[timepoint ..< ?K] = timepoint # [timepoint + 1 ..< ?K]"
        using le by (simp add: upt_conv_Cons)
      show ?thesis
        using True z IH up c "1.prems"(2) by (subst toArray_walk.simps) simp
    next
      case nz: False
      have lt: "curPlane < lastPlane + n"
      proof (rule ccontr)
        assume "\<not> curPlane < lastPlane + n"
        with "1.prems" have "curPlane = n * timepoint + n" by simp
        then have "curPlane mod n = 0" by simp
        with nz show False by simp
      qed
      have IH: "toArray_walk ary n idx np out (curPlane + 1) lastPlane timepoint =
        (out @ map (\<lambda>k. (idx * np + k, slice_last ary (n * k) (n * (k + 1)))) [timepoint ..< ?K],
         n * ?K, ?K)"
        using "1.IH"(2) [OF True nz] "1.prems" lt True by simp
      show ?thesis
        using True nz IH by (subst toArray_walk.simps) simp
    qed
  qed
qed

lemma npoints_of_ceil:
  assumes "0 < n" "0 < t"
  shows "npoints_of t n = (t - 1) div n + 1"
proof (cases "t mod n = 0")
  case True
  then obtain q where q: "t = n * q" by (auto simp: mod_eq_0_iff_dvd)
  with assms have "0 < q" by (cases q) auto
  then have "(n * q - 1) div n = q - 1"
    using assms(1) walk_end_arith [of n "q - 1" "n * q"]
    by (cases q) (simp_all)
  with q True \<open>0 < q\<close> assms(1) show ?thesis by (simp add: npoints_of_def)
next
  case False
  have "(t - 1) div n = t div n"
  proof -
    have "n * (t div n) < t"
      using False assms(1)
      by (metis mod_eq_0_iff_dvd dvd_triv_left le_neq_implies_less times_div_less_eq_dividend)
    moreover have "t \<le> n * (t div n) + n"
      using assms(1) by (metis add.commute dividend_less_times_div less_imp_le_nat)
    ultimately show ?thesis using walk_end_arith [of n "t div n" t] assms(1) by simp
  qed
  with False show ?thesis by (simp add: npoints_of_def)
qed

lemma slice_last_clip:
  assumes "last (shape ary) \<le> hi"
  shows "slice_last ary lo hi = slice_last ary lo (last (shape ary))"
  using assms by (simp add: slice_last_def Let_def min_def)

lemma frombuffer_enough:
  assumes "count * itemsize dt \<le> length buf"
  shows "frombuffer buf dt count =
           Inr (map (\<lambda>i. take (itemsize dt) (drop (i * itemsize dt) buf)) [0..<count])"
  using assms by (simp add: frombuffer_def)


lemma toArray_closed:
  assumes "dims \<noteq> []" "0 < n" "0 < last dims" "prod_list dims * itemsize dt \<le> length buf"
  shows "toArray dims dt (Some n) (idx, buf) =
     Inr (map (\<lambda>k. (idx * npoints_of (last dims) n + k,
                     slice_last (reshape_F (map (\<lambda>i. take (itemsize dt) (drop (i * itemsize dt) buf))
                                            [0..<prod_list dims]) dims) (n * k) (n * (k + 1))))
              [0..<npoints_of (last dims) n])"
proof -
  let ?items = "map (\<lambda>i. take (itemsize dt) (drop (i * itemsize dt) buf)) [0..<prod_list dims]"
  let ?ary = "reshape_F ?items dims"
  let ?T = "last dims"
  let ?K = "(?T - 1) div n"
  let ?np = "npoints_of ?T n"
  have sh: "last (shape ?ary) = ?T" by (simp add: reshape_F_def)
  have np: "?np = ?K + 1" using assms(2,3) by (rule npoints_of_ceil)
  have walk: "toArray_walk ?ary n idx ?np [] 1 0 0 =
      ([] @ map (\<lambda>k. (idx * ?np + k, slice_last ?ary (n * k) (n * (k + 1)))) [0 ..< ?K],
       n * ?K, ?K)"
    using toArray_walk_closed [of n 0 0 1 ?ary idx ?np "[]"] assms(2,3) sh by simp
  have "?T - 1 < n * ?K + n"
    using assms(2) by (metis add.commute dividend_less_times_div)
  then have "?T \<le> n * (?K + 1)" using assms(3) by simp
  then have flush: "toArray_flush ?ary idx ?np (n * ?K) ?K =
      (idx * ?np + ?K, slice_last ?ary (n * ?K) (n * (?K + 1)))"
    using slice_last_clip [of ?ary "n * (?K + 1)" "n * ?K"] sh
    by (simp add: toArray_flush_def)
  have "toArray dims dt (Some n) (idx, buf) =
      Inr (map (\<lambda>k. (idx * ?np + k, slice_last ?ary (n * k) (n * (k + 1)))) [0 ..< ?K]
           @ [toArray_flush ?ary idx ?np (n * ?K) ?K])"
    using assms(1,2) frombuffer_enough [OF assms(4)] walk
    by (simp add: toArray_def Let_def)
  also have "\<dots> = Inr (map (\<lambda>k. (idx * ?np + k, slice_last ?ary (n * k) (n * (k + 1)))) [0 ..< ?K + 1])"
    using flush by simp
  finally show ?thesis using np by simp
qed

lemma prod_list_butlast_last:
  assumes "dims \<noteq> []"
  shows "prod_list dims = prod_list (butlast dims) * last (dims :: nat list)"
proof -
  have "prod_list (butlast dims @ [last dims]) = prod_list (butlast dims) * last dims"
    by simp
  with assms show ?thesis by simp
qed





section \<open>Claims about the stack decoder\<close>

text \<open>
  Claim C10. When \<open>nplanes\<close> is at least the size of the last axis, which is positive,
  \<^verbatim>\<open>toArray\<close> yields exactly one frame for the record: the whole array, all
  \<open>dims[-1]\<close> planes of it, under the key \<open>idx\<close>; \<open>npoints\<close> is 1.
\<close>

theorem toArray_nplanes_ge_lastdim:
  assumes "dims \<noteq> []" "0 < last dims" "last dims \<le> n"
    "prod_list dims * itemsize dt \<le> length buf"
  shows "npoints_of (last dims) n = 1 \<and>
         toArray dims dt (Some n) (idx, buf) =
           Inr [(idx, \<lparr>shape = dims,
                       data = map (\<lambda>i. take (itemsize dt) (drop (i * itemsize dt) buf))
                                  [0..<prod_list dims]\<rparr>)]"
proof -
  let ?items = "map (\<lambda>i. take (itemsize dt) (drop (i * itemsize dt) buf)) [0..<prod_list dims]"
  have n: "0 < n" using assms(2,3) by simp
  have "(last dims - 1) div n = 0" using assms(2,3) by simp
  then have np: "npoints_of (last dims) n = 1"
    using npoints_of_ceil [OF n assms(2)] by simp
  have whole: "slice_last (reshape_F ?items dims) 0 n = \<lparr>shape = dims, data = ?items\<rparr>"
    using assms(1,3) prod_list_butlast_last [OF assms(1)]
    by (simp add: slice_last_def reshape_F_def Let_def min_def mult.commute)
  show ?thesis
    using toArray_closed [OF assms(1) n assms(2,4), of idx] np whole by simp
qed

theorem toArray_nplanes_ge_lastdim_witness:
  "toArray [2, 2, 3] Int8 (Some 5) (4, [1, 2, 3, 4, 5, 6, 7, 8, 9, 10, 11, 12]) =
     Inr [(4, \<lparr>shape = [2, 2, 3],
                data = [[1], [2], [3], [4], [5], [6], [7], [8], [9], [10], [11], [12]]\<rparr>)]
   \<and> npoints_of 3 5 = 1"
  using toArray_nplanes_ge_lastdim [of "[2, 2, 3]" 5 Int8 "[1, 2, 3, 4, 5, 6, 7, 8, 9, 10, 11, 12]" 4]
  by (simp add: upt_conv_Cons)

text \<open>
  Claim C3. With \<open>dims = (2, 2, 6)\<close>, \<open>nplanes = 2\<close> and a buffer of the exact byte
  size, \<^verbatim>\<open>toArray\<close> yields exactly three frames for the record, each of shape
  \<open>(2, 2, 2)\<close>, under the keys \<open>idx * 3 + 0\<close>, \<open>idx * 3 + 1\<close> and \<open>idx * 3 + 2\<close>; each
  holds the eight items of its two planes.
\<close>

theorem toArray_2_2_6_by_2:
  assumes "length buf = 24 * itemsize dt"
  shows "toArray [2, 2, 6] dt (Some 2) (idx, buf) =
     Inr [(idx * 3 + 0,
           \<lparr>shape = [2, 2, 2],
              data = map (\<lambda>i. take (itemsize dt) (drop (i * itemsize dt) buf)) [0..<8]\<rparr>),
          (idx * 3 + 1,
           \<lparr>shape = [2, 2, 2],
              data = map (\<lambda>i. take (itemsize dt) (drop (i * itemsize dt) buf)) [8..<16]\<rparr>),
          (idx * 3 + 2,
           \<lparr>shape = [2, 2, 2],
              data = map (\<lambda>i. take (itemsize dt) (drop (i * itemsize dt) buf)) [16..<24]\<rparr>)]"
proof -
  have np: "npoints_of 6 2 = 3" by (simp add: npoints_of_def)
  have up: "[0..<3] = [0, 1, 2]" by (simp add: upt_conv_Cons)
  have enough: "prod_list [2, 2, 6] * itemsize dt \<le> length buf" using assms by simp
  have "toArray [2, 2, 6] dt (Some 2) (idx, buf) =
     Inr (map (\<lambda>k. (idx * 3 + k,
                     slice_last (reshape_F (map (\<lambda>i. take (itemsize dt) (drop (i * itemsize dt) buf))
                                            [0..<24]) [2, 2, 6]) (2 * k) (2 * (k + 1))))
              [0..<3])"
    using toArray_closed [of "[2, 2, 6]" 2 dt buf idx] enough np by simp
  then show ?thesis
    unfolding up
    by (simp add: slice_last_def reshape_F_def Let_def take_map drop_map take_upt drop_upt
        del: upt_Suc)
qed

theorem toArray_2_2_6_by_2_witness:
  "length (replicate 48 (0 :: byte)) = 24 * itemsize Int16 \<and>
   map_sum id (map (map_prod id shape)) (toArray [2, 2, 6] Int16 (Some 2) (1, replicate 48 0)) =
     Inr [(3, [2, 2, 2]), (4, [2, 2, 2]), (5, [2, 2, 2])]"
  using toArray_2_2_6_by_2 [of "replicate 48 0" Int16 1] by simp



text \<open>
  Claim C2, as amended. For a record that decodes, whose last axis is a positive exact
  multiple of \<open>nplanes\<close>: the loop of \<^verbatim>\<open>toArray\<close> ends with
  \<open>lastPlane = dims[-1] - nplanes\<close>, so the yield after it is the last full group, the
  \<open>nplanes\<close> planes from \<open>dims[-1] - nplanes\<close> on, under the last key
  \<open>idx * npoints + (npoints - 1)\<close>. It is never an empty group.
\<close>

theorem toArray_flush_exact_multiple:
  assumes "dims \<noteq> []" "0 < n" "0 < last dims" "last dims mod n = 0"
    "prod_list dims * itemsize dt \<le> length buf"
  shows "\<exists>items out.
     frombuffer buf dt (prod_list dims) = Inr items
     \<and> toArray_walk (reshape_F items dims) n idx (npoints_of (last dims) n) [] 1 0 0 =
         (out, last dims - n, last dims div n - 1)
     \<and> toArray dims dt (Some n) (idx, buf) =
         Inr (out @ [toArray_flush (reshape_F items dims) idx (npoints_of (last dims) n)
                       (last dims - n) (last dims div n - 1)])
     \<and> toArray_flush (reshape_F items dims) idx (npoints_of (last dims) n)
           (last dims - n) (last dims div n - 1) =
         (idx * npoints_of (last dims) n + (npoints_of (last dims) n - 1),
          \<lparr>shape = butlast dims @ [n],
             data = take (n * prod_list (butlast dims))
                      (drop ((last dims - n) * prod_list (butlast dims)) items)\<rparr>)
     \<and> length (take (n * prod_list (butlast dims))
                 (drop ((last dims - n) * prod_list (butlast dims)) items))
         = n * prod_list (butlast dims)"
proof -
  let ?items = "map (\<lambda>i. take (itemsize dt) (drop (i * itemsize dt) buf)) [0..<prod_list dims]"
  let ?ary = "reshape_F ?items dims"
  let ?T = "last dims"
  let ?P = "prod_list (butlast dims)"
  let ?K = "(?T - 1) div n"
  let ?np = "npoints_of ?T n"
  let ?out = "map (\<lambda>k. (idx * ?np + k, slice_last ?ary (n * k) (n * (k + 1)))) [0 ..< ?K]"
  have fb: "frombuffer buf dt (prod_list dims) = Inr ?items"
    using assms(5) by (rule frombuffer_enough)
  have sh: "last (shape ?ary) = ?T" by (simp add: reshape_F_def)
  from assms(4) obtain q where q: "?T = n * q" by (auto simp: mod_eq_0_iff_dvd)
  with assms(3) have qpos: "0 < q" by (cases q) auto
  have divq: "?T div n = q" using q assms(2) by simp
  have K: "?K = q - 1"
    using walk_end_arith [of n "q - 1" ?T] q qpos assms(2) by (cases q) simp_all
  have nK: "n * ?K = ?T - n" using K q by (simp add: right_diff_distrib')
  have nle: "n \<le> ?T" using q qpos by simp
  have np: "?np = q" using assms(4) divq by (simp add: npoints_of_def)
  have walk: "toArray_walk ?ary n idx ?np [] 1 0 0 = (?out, ?T - n, ?T div n - 1)"
    using toArray_walk_closed [of n 0 0 1 ?ary idx ?np "[]"] assms(2,3) sh nK K divq by simp
  have run: "toArray dims dt (Some n) (idx, buf) =
      Inr (?out @ [toArray_flush ?ary idx ?np (?T - n) (?T div n - 1)])"
    using assms(1,2) fb walk by (simp add: toArray_def Let_def)
  have flush: "toArray_flush ?ary idx ?np (?T - n) (?T div n - 1) =
      (idx * ?np + (?np - 1),
       \<lparr>shape = butlast dims @ [n],
          data = take (n * ?P) (drop ((?T - n) * ?P) ?items)\<rparr>)"
    using nle np divq
    by (simp add: toArray_flush_def slice_last_def reshape_F_def Let_def min_def)
  have "(?T - n) * ?P + n * ?P = ?T * ?P"
    using nle by (metis add_mult_distrib le_add_diff_inverse2)
  moreover have "length ?items = ?T * ?P"
    using prod_list_butlast_last [OF assms(1)] by (simp add: mult.commute)
  ultimately have "length (drop ((?T - n) * ?P) ?items) = n * ?P"
    by (simp only: length_drop)
  then have len: "length (take (n * ?P) (drop ((?T - n) * ?P) ?items)) = n * ?P"
    by simp
  show ?thesis
    by (rule exI [of _ ?items], rule exI [of _ ?out]) (simp only: fb walk run flush len simp_thms)
qed

theorem toArray_flush_exact_multiple_witness:
  "\<exists>items out.
     toArray [2, 2, 6] Int8 (Some 2)
       (0, [1, 2, 3, 4, 5, 6, 7, 8, 9, 10, 11, 12, 13, 14, 15, 16, 17, 18, 19, 20, 21, 22, 23, 24]) =
       Inr (out @ [toArray_flush (reshape_F items [2, 2, 6]) 0 3 4 2])
     \<and> toArray_flush (reshape_F items [2, 2, 6]) 0 3 4 2 =
         (2, \<lparr>shape = [2, 2, 2], data = take 8 (drop 16 items)\<rparr>)
     \<and> length (take 8 (drop 16 items)) = 8"
proof -
  let ?d = "[2, 2, 6] :: nat list"
  let ?buf = "[1, 2, 3, 4, 5, 6, 7, 8, 9, 10, 11, 12, 13, 14, 15, 16, 17, 18, 19, 20, 21, 22, 23, 24]
                :: buffer"
  have "\<exists>items out.
     frombuffer ?buf Int8 (prod_list ?d) = Inr items
     \<and> toArray_walk (reshape_F items ?d) 2 0 (npoints_of (last ?d) 2) [] 1 0 0 =
         (out, last ?d - 2, last ?d div 2 - 1)
     \<and> toArray ?d Int8 (Some 2) (0, ?buf) =
         Inr (out @ [toArray_flush (reshape_F items ?d) 0 (npoints_of (last ?d) 2)
                       (last ?d - 2) (last ?d div 2 - 1)])
     \<and> toArray_flush (reshape_F items ?d) 0 (npoints_of (last ?d) 2)
           (last ?d - 2) (last ?d div 2 - 1) =
         (0 * npoints_of (last ?d) 2 + (npoints_of (last ?d) 2 - 1),
          \<lparr>shape = butlast ?d @ [2],
             data = take (2 * prod_list (butlast ?d))
                      (drop ((last ?d - 2) * prod_list (butlast ?d)) items)\<rparr>)
     \<and> length (take (2 * prod_list (butlast ?d))
                 (drop ((last ?d - 2) * prod_list (butlast ?d)) items))
         = 2 * prod_list (butlast ?d)"
    by (rule toArray_flush_exact_multiple) simp_all
  then obtain items out where
    run: "toArray ?d Int8 (Some 2) (0, ?buf) =
         Inr (out @ [toArray_flush (reshape_F items ?d) 0 (npoints_of (last ?d) 2)
                       (last ?d - 2) (last ?d div 2 - 1)])"
    and flush: "toArray_flush (reshape_F items ?d) 0 (npoints_of (last ?d) 2)
           (last ?d - 2) (last ?d div 2 - 1) =
         (0 * npoints_of (last ?d) 2 + (npoints_of (last ?d) 2 - 1),
          \<lparr>shape = butlast ?d @ [2],
             data = take (2 * prod_list (butlast ?d))
                      (drop ((last ?d - 2) * prod_list (butlast ?d)) items)\<rparr>)"
    and len: "length (take (2 * prod_list (butlast ?d))
                 (drop ((last ?d - 2) * prod_list (butlast ?d)) items))
         = 2 * prod_list (butlast ?d)"
    by blast
  have vals: "npoints_of (last ?d) 2 = 3" "last ?d - 2 = 4" "last ?d div 2 - 1 = 2"
    "2 * prod_list (butlast ?d) = 8" "(last ?d - 2) * prod_list (butlast ?d) = 16"
    "butlast ?d @ [2] = [2, 2, 2]"
    by (simp_all add: npoints_of_def)
  show ?thesis
    using run flush len unfolding vals
    by (intro exI [of _ items] exI [of _ out]) simp
qed

text \<open>
  Claim C2 as stated fails: with \<open>dims = (2, 2, 6)\<close> and \<open>nplanes = 2\<close> the loop ends with
  \<open>lastPlane = 4\<close> and \<open>timepoint = 2\<close>, and the yield after it is the frame of planes 4
  and 5, of shape \<open>(2, 2, 2)\<close>, not a frame of zero planes.
\<close>

theorem toArray_flush_on_multiple_not_empty:
  "(6 :: nat) mod 2 = 0
   \<and> toArray [2, 2, 6] Int8 (Some 2)
       (0, [1, 2, 3, 4, 5, 6, 7, 8, 9, 10, 11, 12, 13, 14, 15, 16, 17, 18, 19, 20, 21, 22, 23, 24]) =
     Inr [(0, \<lparr>shape = [2, 2, 2], data = [[1], [2], [3], [4], [5], [6], [7], [8]]\<rparr>),
          (1, \<lparr>shape = [2, 2, 2], data = [[9], [10], [11], [12], [13], [14], [15], [16]]\<rparr>),
          (2, \<lparr>shape = [2, 2, 2], data = [[17], [18], [19], [20], [21], [22], [23], [24]]\<rparr>)]
   \<and> snd (toArray_walk
          \<lparr>shape = [2, 2, 6],
             data = [[1], [2], [3], [4], [5], [6], [7], [8], [9], [10], [11], [12], [13], [14], [15],
                     [16], [17], [18], [19], [20], [21], [22], [23], [24 :: byte]]\<rparr>
          2 0 3 [] 1 0 0) = (4, 2)
   \<and> toArray_flush
        \<lparr>shape = [2, 2, 6],
           data = [[1], [2], [3], [4], [5], [6], [7], [8], [9], [10], [11], [12], [13], [14], [15],
                   [16], [17], [18], [19], [20], [21], [22], [23], [24 :: byte]]\<rparr>
        0 3 4 2 =
       (2, \<lparr>shape = [2, 2, 2], data = [[17], [18], [19], [20], [21], [22], [23], [24]]\<rparr>)"
  by code_simp




section \<open>Claims about the loaders\<close>

text \<open>
  Claim C7. \<^verbatim>\<open>fromStack\<close> raises a configuration error when \<open>dims\<close> is missing or
  empty, or when \<open>nplanes\<close> is given and zero or negative, and returns otherwise;
  \<^verbatim>\<open>fromTif\<close>, once its import of PIL has succeeded, raises one when \<open>nplanes\<close> is
  given and zero or negative, and returns otherwise. The error does not depend on the
  files: it is the same with no record at all, so it is raised before any record is
  decoded.
\<close>

theorem validator_raises:
  "((dims = None \<or> dims = Some []) \<longrightarrow>
      fromStack files dims dt nplanes = Inl DimsNotSpecified)
   \<and> (\<forall>ds n. dims = Some ds \<and> ds \<noteq> [] \<and> nplanes = Some n \<and> n \<le> 0 \<longrightarrow>
         fromStack files dims dt nplanes = Inl (NplanesNotPositive n))
   \<and> (\<forall>ds. dims = Some ds \<and> ds \<noteq> [] \<and> (nplanes = None \<or> (\<exists>n. nplanes = Some n \<and> 0 < n)) \<longrightarrow>
         (\<exists>img. fromStack files dims dt nplanes = Inr img))
   \<and> (\<forall>e. fromStack files dims dt nplanes = Inl e \<longrightarrow>
         is_ConfigurationError e \<and> fromStack [] dims dt nplanes = Inl e)
   \<and> (\<forall>n. nplanes = Some n \<and> n \<le> 0 \<longrightarrow>
         fromTif True Image_open files nplanes = Inl (NplanesNotPositive n))
   \<and> ((nplanes = None \<or> (\<exists>n. nplanes = Some n \<and> 0 < n)) \<longrightarrow>
         (\<exists>img. fromTif True Image_open files nplanes = Inr img))
   \<and> (\<forall>e. fromTif True Image_open files nplanes = Inl e \<longrightarrow>
         is_ConfigurationError e \<and> fromTif True Image_open [] nplanes = Inl e)"
  by (auto simp: fromStack_def fromTif_def Let_def split: option.splits if_splits)

theorem validator_raises_witness:
  "fromStack [[1, 2]] (Some []) Int8 None = Inl DimsNotSpecified
   \<and> fromStack [[1, 2]] None Int8 (Some 2) = Inl DimsNotSpecified
   \<and> fromStack [[1, 2]] (Some [1, 2]) Int8 (Some 0) = Inl (NplanesNotPositive 0)
   \<and> fromStack [[1, 2]] (Some [1, 2]) Int8 (Some (- 3)) = Inl (NplanesNotPositive (- 3))
   \<and> (\<exists>img. fromStack [[1, 2]] (Some [1, 2]) Int8 (Some 1) = Inr img)
   \<and> (\<exists>img. fromStack [[1, 2]] (Some [1, 2]) Int8 None = Inr img)
   \<and> fromTif True (\<lambda>buf. Inr [\<lparr>shape = [1, length buf], data = buf\<rparr>]) [[1, 2]] (Some 0)
        = Inl (NplanesNotPositive 0)
   \<and> (\<exists>img. fromTif True (\<lambda>buf. Inr [\<lparr>shape = [1, length buf], data = buf\<rparr>]) [[1, 2]] (Some 2)
        = Inr img)"
proof -
  let ?op = "\<lambda>buf :: buffer. Inr [\<lparr>shape = [1, length buf], data = buf\<rparr>] :: error + byte ndarray list"
  note st = validator_raises [where files = "[[1, 2]]" and dt = Int8 and Image_open = ?op]
  have a: "fromStack [[1, 2]] (Some []) Int8 None = Inl DimsNotSpecified"
    using st [of "Some []" None] by blast
  have b: "fromStack [[1, 2]] None Int8 (Some 2) = Inl DimsNotSpecified"
    using st [of None "Some 2"] by blast
  have c: "fromStack [[1, 2]] (Some [1, 2]) Int8 (Some 0) = Inl (NplanesNotPositive 0)"
    using st [of "Some [1, 2]" "Some 0"] by simp
  have d: "fromStack [[1, 2]] (Some [1, 2]) Int8 (Some (- 3)) = Inl (NplanesNotPositive (- 3))"
    using st [of "Some [1, 2]" "Some (- 3)"] by simp
  have e: "\<exists>img. fromStack [[1, 2]] (Some [1, 2]) Int8 (Some 1) = Inr img"
    using st [of "Some [1, 2]" "Some 1"] by simp
  have f: "\<exists>img. fromStack [[1, 2]] (Some [1, 2]) Int8 None = Inr img"
    using st [of "Some [1, 2]" None] by simp
  have g: "fromTif True ?op [[1, 2]] (Some 0) = Inl (NplanesNotPositive 0)"
    using st [of None "Some 0"] by simp
  have h: "\<exists>img. fromTif True ?op [[1, 2]] (Some 2) = Inr img"
    using st [of None "Some 2"] by simp
  show ?thesis using a b c d e f g h by (intro conjI)
qed

text \<open>
  Claim C6, as amended. For a configuration that passes the checks, the \<open>nimages\<close>
  that \<^verbatim>\<open>fromStack\<close> and \<^verbatim>\<open>fromTif\<close> report is the number of records when
  \<open>nplanes\<close> is not given, and \<open>None\<close> (unknown) whenever \<open>nplanes\<close> is given,
  for stacks as well as for multipage tifs; \<^verbatim>\<open>fromPng\<close> always reports the number
  of records.
\<close>

theorem nimages_reported:
  assumes "ds \<noteq> []" "nplanes = None \<or> (\<exists>n. nplanes = Some n \<and> 0 < n)"
  shows "(\<exists>img. fromStack files (Some ds) dt nplanes = Inr img
            \<and> nimages img = (if nplanes = None then Some (length files) else None))
       \<and> (\<exists>img. fromTif True Image_open files nplanes = Inr img
            \<and> nimages img = (if nplanes = None then Some (length files) else None))
       \<and> nimages (fromPng imread files) = Some (length files)"
  using assms
  by (auto simp: fromStack_def fromTif_def fromPng_def reader_read_def Let_def)

theorem nimages_reported_witness:
  "(\<exists>img. fromStack [[1, 2], [3, 4]] (Some [1, 2]) Int8 None = Inr img \<and> nimages img = Some 2)
   \<and> (\<exists>img. fromStack [[1, 2], [3, 4]] (Some [1, 2]) Int8 (Some 1) = Inr img \<and> nimages img = None)
   \<and> nimages (fromPng (\<lambda>buf. Inr \<lparr>shape = [1, length buf], data = buf\<rparr>) [[1, 2], [3, 4]]) = Some 2"
proof -
  let ?rd = "\<lambda>buf :: buffer. Inr \<lparr>shape = [1, length buf], data = buf\<rparr> :: error + byte ndarray"
  let ?op = "\<lambda>buf :: buffer. Inr [\<lparr>shape = [1, length buf], data = buf\<rparr>] :: error + byte ndarray list"
  have a: "\<exists>img. fromStack [[1, 2], [3, 4]] (Some [1, 2]) Int8 None = Inr img \<and> nimages img = Some 2"
    using nimages_reported [of "[1, 2]" None "[[1, 2], [3, 4]]" Int8 ?op ?rd] by auto
  have b: "\<exists>img. fromStack [[1, 2], [3, 4]] (Some [1, 2]) Int8 (Some 1) = Inr img \<and> nimages img = None"
    using nimages_reported [of "[1, 2]" "Some 1" "[[1, 2], [3, 4]]" Int8 ?op ?rd] by auto
  have c: "nimages (fromPng ?rd [[1, 2], [3, 4]]) = Some 2"
    using nimages_reported [of "[1, 2]" None "[[1, 2], [3, 4]]" Int8 ?op ?rd] by auto
  show ?thesis using a b c by (intro conjI)
qed

text \<open>
  Claim C6 as stated fails: for a stack split with \<open>nplanes = 1\<close> and \<open>dims = (1, 2)\<close>
  the total, two records times two groups, is determined by the configuration and four
  frames are produced, yet \<open>nimages\<close> is reported as \<open>None\<close>.
\<close>

theorem fromStack_split_count_unknown:
  "map_sum id nimages (fromStack [[1, 2], [3, 4]] (Some [1, 2]) Int8 (Some 1)) = Inr None
   \<and> map_sum id (map_sum id length \<circ> collect \<circ> rdd)
        (fromStack [[1, 2], [3, 4]] (Some [1, 2]) Int8 (Some 1)) = Inr (Inr 4)
   \<and> length [[1, 2], [3, 4 :: byte]] * npoints_of (last [1, 2]) 1 = 4"
  by code_simp

text \<open>
  Claim C8. \<^verbatim>\<open>fromPng\<close>, which takes no \<open>nplanes\<close> at all, gives one result per
  record: the one frame \<open>(i, a)\<close> whose key is the record's position when the buffer
  decodes to \<open>a\<close>, and the codec's error otherwise. \<open>nimages\<close> is the number of
  records whatever \<open>imread\<close> does, so it is known without decoding any buffer.
\<close>

theorem fromPng_one_frame_per_record:
  "length (rdd (fromPng imread files)) = length files
   \<and> nimages (fromPng imread files) = Some (length files)
   \<and> (\<forall>i < length files. \<forall>a. imread (files ! i) = Inr a \<longrightarrow>
         rdd (fromPng imread files) ! i = Inr [(i, a)])
   \<and> (\<forall>i < length files. \<forall>e. imread (files ! i) = Inl e \<longrightarrow>
         rdd (fromPng imread files) ! i = Inl e)"
  by (simp add: fromPng_def reader_read_def mapValues_def Let_def)

theorem fromPng_one_frame_per_record_witness:
  "length (rdd (fromPng (\<lambda>buf. if buf = [] then Inl CodecError
                                  else Inr \<lparr>shape = [1, length buf], data = buf\<rparr>)
                        [[1, 2], [], [3]])) = 3
   \<and> nimages (fromPng (\<lambda>buf. if buf = [] then Inl CodecError
                                 else Inr \<lparr>shape = [1, length buf], data = buf\<rparr>)
                       [[1, 2], [], [3]]) = Some 3
   \<and> rdd (fromPng (\<lambda>buf. if buf = [] then Inl CodecError
                             else Inr \<lparr>shape = [1, length buf], data = buf\<rparr>)
                   [[1, 2], [], [3]]) ! 0 = Inr [(0, \<lparr>shape = [1, 2], data = [1, 2]\<rparr>)]
   \<and> rdd (fromPng (\<lambda>buf. if buf = [] then Inl CodecError
                             else Inr \<lparr>shape = [1, length buf], data = buf\<rparr>)
                   [[1, 2], [], [3]]) ! 1 = Inl CodecError
   \<and> rdd (fromPng (\<lambda>buf. if buf = [] then Inl CodecError
                             else Inr \<lparr>shape = [1, length buf], data = buf\<rparr>)
                   [[1, 2], [], [3]]) ! 2 = Inr [(2, \<lparr>shape = [1, 1], data = [3]\<rparr>)]"
proof -
  let ?rd = "\<lambda>buf :: buffer. if buf = [] then Inl CodecError
                            else Inr \<lparr>shape = [1, length buf], data = buf\<rparr>"
  let ?files = "[[1, 2], [], [3]] :: buffer list"
  note st = fromPng_one_frame_per_record [of ?rd ?files]
  have len: "length (rdd (fromPng ?rd ?files)) = 3" using st by simp
  have cnt: "nimages (fromPng ?rd ?files) = Some 3" using st by simp
  have all: "\<forall>i < length ?files. \<forall>a. ?rd (?files ! i) = Inr a \<longrightarrow>
               rdd (fromPng ?rd ?files) ! i = Inr [(i, a)]"
    and err: "\<forall>i < length ?files. \<forall>e. ?rd (?files ! i) = Inl e \<longrightarrow>
               rdd (fromPng ?rd ?files) ! i = Inl e"
    using st by blast+
  have r0: "rdd (fromPng ?rd ?files) ! 0 = Inr [(0, \<lparr>shape = [1, 2], data = [1, 2]\<rparr>)]"
    using all [rule_format, of 0 "\<lparr>shape = [1, 2], data = [1, 2]\<rparr>"] by simp
  have r1: "rdd (fromPng ?rd ?files) ! 1 = Inl CodecError"
    using err [rule_format, of 1 CodecError] by simp
  have r2: "rdd (fromPng ?rd ?files) ! 2 = Inr [(2, \<lparr>shape = [1, 1], data = [3]\<rparr>)]"
    using all [rule_format, of 2 "\<lparr>shape = [1, 1], data = [3]\<rparr>"] by simp
  show ?thesis using len cnt r0 r1 r2 by (intro conjI)
qed

section \<open>The page walk of multitifReader in closed form\<close>








section \<open>Claims about the multipage decoder\<close>



text \<open>
  Claim C1: keys of \<^verbatim>\<open>multitifReader\<close> collide. With \<open>nplanes = 2\<close>, record 0 of five
  pages has \<open>nvals = 3\<close> and the keys 0, 1, 2; record 1 of three pages has \<open>nvals = 2\<close>
  and the keys \<open>1 * 2 + 0 = 2\<close> and 3. The key 2 is emitted twice, so the keys of the
  whole run are not distinct.
\<close>

theorem multitif_keys_collide:
  "map_sum id (map fst)
     (multitif_frames (Some 2) 0
        [\<lparr>shape = [1, 1], data = [1 :: nat]\<rparr>, \<lparr>shape = [1, 1], data = [2]\<rparr>,
         \<lparr>shape = [1, 1], data = [3]\<rparr>, \<lparr>shape = [1, 1], data = [4]\<rparr>,
         \<lparr>shape = [1, 1], data = [5]\<rparr>]) = Inr [0, 1, 2]
   \<and> map_sum id (map fst)
     (multitif_frames (Some 2) 1
        [\<lparr>shape = [1, 1], data = [6 :: nat]\<rparr>, \<lparr>shape = [1, 1], data = [7]\<rparr>,
         \<lparr>shape = [1, 1], data = [8]\<rparr>]) = Inr [2, 3]
   \<and> map_sum id (map_sum id (map fst) \<circ> collect \<circ> rdd)
       (fromTif True (\<lambda>buf. Inr (map (\<lambda>b. \<lparr>shape = [1, 1], data = [b]\<rparr>) buf))
          [[1, 2, 3, 4, 5], [6, 7, 8]] (Some 2)) = Inr (Inr [0, 1, 2, 2, 3])
   \<and> map_sum id (map_sum id (distinct \<circ> map fst) \<circ> collect \<circ> rdd)
       (fromTif True (\<lambda>buf. Inr (map (\<lambda>b. \<lparr>shape = [1, 1], data = [b]\<rparr>) buf))
          [[1, 2, 3, 4, 5], [6, 7, 8]] (Some 2)) = Inr (Inr False)"
  by code_simp

end
